theory Spec2Isabelle
  imports Complex_Main
begin

section \<open>Coupled oscillators: the numerical core of coupled\_oscillators.py\<close>

text \<open>
  The program integrates a chain of coupled mass-spring oscillators with a fixed-step
  Runge-Kutta scheme. This theory embeds its numerical core: \<open>equationOfBlock\<close>,
  \<open>derivatives\<close>, \<open>runge_kutta_4\<close>, \<open>make_positive_definite\<close> and the part of
  \<open>plot_animation\<close> that precedes the drawing.

  Conventions of the embedding.
  \<^item> A one-dimensional numpy array of floats is a \<open>real list\<close>, a two-dimensional one the
    list of its rows. Double-precision numbers are idealised as reals, so rounding,
    overflow, \<open>inf\<close> and \<open>nan\<close> are outside the model. numpy divides by zero without
    raising (the quotient is \<open>inf\<close> or \<open>nan\<close>); HOL's \<open>x / 0\<close> is \<open>0\<close>. Results whose
    values depend on a quotient therefore assume a nonzero mass.
  \<^item> The state vector handed to \<open>derivatives\<close> may be an array of integers as well as
    one of floats, and \<open>np.zeros_like\<close> keeps that type: the type \<open>ndarray\<close> has both.
    The integrator only ever passes rows of its own float array.
  \<^item> Every exception the code can raise is a value \<open>Inl e\<close> of the type \<open>error + 'a\<close>.
  \<^item> numpy's elementwise operations broadcast: two one-dimensional operands must have
    the same length, or one of them has length one and is repeated.
\<close>

subsection \<open>Exceptions\<close>

text \<open>
  \<open>IndexError\<close> and \<open>ValueError\<close> are the Python exception classes; \<open>ValueError\<close> carries
  its message.
\<close>

datatype error = IndexError | ValueError string

type_synonym 'a result = "error + 'a"

type_synonym vec = "real list"

type_synonym mat = "real list list"

text \<open>The message of line 58 of the source, raised when every displacement is zero.\<close>

definition InvalidTrajectory :: error where
  "InvalidTrajectory = ValueError ''All displacement values are zero. Please check the input data.''"

text \<open>
  The \<open>ValueError\<close>s numpy itself raises: on operands of \<open>a + b\<close> that do not broadcast,
  on a value that does not broadcast to the slice or row it is stored in, on a dot
  product of different lengths, and on the maximum of an empty array. numpy's messages
  also print the shapes; the model keeps their fixed part.
\<close>

definition broadcast_error :: error where
  "broadcast_error = ValueError ''operands could not be broadcast together''"

definition assign_error :: error where
  "assign_error = ValueError ''could not broadcast input array''"

definition dot_error :: error where
  "dot_error = ValueError ''shapes not aligned''"

definition empty_max_error :: error where
  "empty_max_error = ValueError ''zero-size array to reduction operation maximum which has no identity''"

definition and_then :: "'a result \<Rightarrow> ('a \<Rightarrow> 'b result) \<Rightarrow> 'b result" where
  "and_then m k = (case m of Inl e \<Rightarrow> Inl e | Inr v \<Rightarrow> k v)"

text \<open>
  \<open>for i in range(...)\<close> over a state that the body updates: the loop stops at the first
  exception.
\<close>

primrec for_loop :: "nat list \<Rightarrow> (nat \<Rightarrow> 's \<Rightarrow> 's result) \<Rightarrow> 's \<Rightarrow> 's result" where
  "for_loop [] body s = Inr s"
| "for_loop (i # is) body s =
     (case body i s of Inl e \<Rightarrow> Inl e | Inr s' \<Rightarrow> for_loop is body s')"

subsection \<open>numpy's operations on one-dimensional arrays\<close>

text \<open>\<open>c * v\<close> and \<open>v / c\<close> for a scalar \<open>c\<close>.\<close>

definition scale :: "real \<Rightarrow> vec \<Rightarrow> vec" where
  "scale c v = map (\<lambda>x. c * x) v"

definition divide_by :: "vec \<Rightarrow> real \<Rightarrow> vec" where
  "divide_by v c = map (\<lambda>x. x / c) v"

text \<open>\<open>a + b\<close> for two arrays, with broadcasting.\<close>

definition np_add :: "vec \<Rightarrow> vec \<Rightarrow> vec result" where
  "np_add a b =
     (if length a = length b then Inr (map2 (+) a b)
      else if length a = 1 then Inr (map (\<lambda>x. hd a + x) b)
      else if length b = 1 then Inr (map (\<lambda>x. x + hd b) a)
      else Inl broadcast_error)"

text \<open>\<open>np.dot(a, b)\<close> of two one-dimensional arrays: the lengths must agree.\<close>

definition np_dot :: "vec \<Rightarrow> vec \<Rightarrow> real result" where
  "np_dot a b =
     (if length a = length b then Inr (sum_list (map2 (*) a b)) else Inl dot_error)"

text \<open>
  A one-dimensional array with its element type: \<open>float64\<close> or \<open>int64\<close>. A float stored
  into an integer array is truncated towards zero, as numpy's cast does.
\<close>

datatype ndarray = Float64 vec | Int64 "int list"

definition to_int64 :: "real \<Rightarrow> int" where
  "to_int64 v = (if 0 \<le> v then \<lfloor>v\<rfloor> else \<lceil>v\<rceil>)"

fun as_float :: "ndarray \<Rightarrow> vec" where
  "as_float (Float64 v) = v"
| "as_float (Int64 v) = map real_of_int v"

fun as_int :: "ndarray \<Rightarrow> int list" where
  "as_int (Float64 v) = map to_int64 v"
| "as_int (Int64 v) = v"

text \<open>\<open>np.zeros_like(y)\<close>, \<open>y[:n]\<close> and \<open>y[n:]\<close>: each keeps the element type of \<open>y\<close>.\<close>

fun zeros_like :: "ndarray \<Rightarrow> ndarray" where
  "zeros_like (Float64 v) = Float64 (replicate (length v) 0)"
| "zeros_like (Int64 v) = Int64 (replicate (length v) 0)"

fun slice_to :: "nat \<Rightarrow> ndarray \<Rightarrow> ndarray" where
  "slice_to n (Float64 v) = Float64 (take n v)"
| "slice_to n (Int64 v) = Int64 (take n v)"

fun slice_from :: "nat \<Rightarrow> ndarray \<Rightarrow> ndarray" where
  "slice_from n (Float64 v) = Float64 (drop n v)"
| "slice_from n (Int64 v) = Int64 (drop n v)"

text \<open>
  \<open>a[:n] = src\<close>: the slice has \<open>min n (len a)\<close> entries, and \<open>src\<close> must broadcast to
  it; \<open>src\<close> is cast to the element type of \<open>a\<close>.
\<close>

definition assign_prefix :: "'a list \<Rightarrow> nat \<Rightarrow> 'a list \<Rightarrow> 'a list result" where
  "assign_prefix a n src =
     (let m = min n (length a) in
      if length src = m then Inr (src @ drop m a)
      else if length src = 1 then Inr (replicate m (hd src) @ drop m a)
      else Inl assign_error)"

fun set_prefix :: "ndarray \<Rightarrow> nat \<Rightarrow> ndarray \<Rightarrow> ndarray result" where
  "set_prefix (Float64 a) n src =
     and_then (assign_prefix a n (as_float src)) (\<lambda>r. Inr (Float64 r))"
| "set_prefix (Int64 a) n src =
     and_then (assign_prefix a n (as_int src)) (\<lambda>r. Inr (Int64 r))"

text \<open>\<open>a[i] = v\<close> for an index \<open>i \<ge> 0\<close> and a float \<open>v\<close>.\<close>

fun set_item :: "ndarray \<Rightarrow> nat \<Rightarrow> real \<Rightarrow> ndarray result" where
  "set_item (Float64 a) i v =
     (if i < length a then Inr (Float64 (a[i := v])) else Inl IndexError)"
| "set_item (Int64 a) i v =
     (if i < length a then Inr (Int64 (a[i := to_int64 v])) else Inl IndexError)"

text \<open>
  \<open>y[i] = v\<close> for a two-dimensional \<open>y\<close> whose rows have \<open>width\<close> entries: \<open>v\<close> must
  broadcast to a row.
\<close>

definition set_row :: "nat \<Rightarrow> mat \<Rightarrow> nat \<Rightarrow> vec \<Rightarrow> mat result" where
  "set_row width y i v =
     (if i < length y then
        (if length v = width then Inr (y[i := v])
         else if length v = 1 then Inr (y[i := replicate width (hd v)])
         else Inl assign_error)
      else Inl IndexError)"

subsection \<open>The oscillator model and the derivative function\<close>

record Oscillator =
  mass :: real
  k_row :: vec

text \<open>
  The dot product and the division are in floats whatever the element type of the
  displacements.
\<close>

definition equationOfBlock :: "Oscillator \<Rightarrow> ndarray \<Rightarrow> real result" where
  "equationOfBlock oscillator displacements =
     and_then (np_dot (k_row oscillator) (as_float displacements))
       (\<lambda>d. Inr ((- d) / mass oscillator))"

text \<open>
  \<open>derivatives\<close> never reads its time argument \<open>t\<close>. The right-hand side of
  \<open>dydt[n + i] = ...\<close> is evaluated before the store, so a failing dot product wins
  over an index out of range. \<open>dydt\<close> has the element type of \<open>y\<close>: on an integer state
  the accelerations are truncated when they are stored.
\<close>

definition derivatives :: "real \<Rightarrow> ndarray \<Rightarrow> Oscillator list \<Rightarrow> ndarray result" where
  "derivatives t y oscillators =
     (let n = length oscillators;
          dydt = zeros_like y;
          displacements = slice_to n y;
          velocities = slice_from n y
      in and_then (set_prefix dydt n velocities)
           (for_loop [0..<n]
              (\<lambda>i dydt. and_then (equationOfBlock (oscillators ! i) displacements)
                           (set_item dydt (n + i)))))"

subsection \<open>The integrator\<close>

text \<open>
  One pass of the loop of \<open>runge_kutta_4\<close> for the index \<open>i\<close>, on the array \<open>y\<close> of
  rows of width \<open>w\<close>. The sum \<open>k1 + 2 * k2 + 2 * k3 + k4\<close> associates to the left.
  \<open>y\<close> is an array of floats, so \<open>f\<close> receives float states; \<open>h\<close> is a float, so
  \<open>h * f(...)\<close> is an array of floats whatever \<open>f\<close> returns.
\<close>

definition rk4_iteration ::
  "(real \<Rightarrow> ndarray \<Rightarrow> Oscillator list \<Rightarrow> ndarray result) \<Rightarrow> real list \<Rightarrow> Oscillator list \<Rightarrow>
     nat \<Rightarrow> nat \<Rightarrow> mat \<Rightarrow> mat result" where
  "rk4_iteration f t oscillators w i y =
     (let h = t ! (i + 1) - t ! i in
      and_then (f (t ! i) (Float64 (y ! i)) oscillators) (\<lambda>d1.
        let k1 = scale h (as_float d1) in
      and_then (np_add (y ! i) (divide_by k1 2)) (\<lambda>a2.
      and_then (f (t ! i + h / 2) (Float64 a2) oscillators) (\<lambda>d2.
        let k2 = scale h (as_float d2) in
      and_then (np_add (y ! i) (divide_by k2 2)) (\<lambda>a3.
      and_then (f (t ! i + h / 2) (Float64 a3) oscillators) (\<lambda>d3.
        let k3 = scale h (as_float d3) in
      and_then (np_add (y ! i) k3) (\<lambda>a4.
      and_then (f (t ! i + h) (Float64 a4) oscillators) (\<lambda>d4.
        let k4 = scale h (as_float d4) in
      and_then (np_add k1 (scale 2 k2)) (\<lambda>s1.
      and_then (np_add s1 (scale 2 k3)) (\<lambda>s2.
      and_then (np_add s2 k4) (\<lambda>s3.
      and_then (np_add (y ! i) (divide_by s3 6))
        (set_row w y (i + 1)))))))))))))"

text \<open>
  \<open>y = np.zeros((n, len(y0)))\<close>, then \<open>y[0] = y0\<close>, which raises \<open>IndexError\<close> when the
  grid is empty, then the loop over \<open>range(n - 1)\<close>. \<open>y0\<close> is only measured and copied
  into the float array \<open>y\<close>, so its values are all the model keeps of it.
\<close>

definition runge_kutta_4 ::
  "(real \<Rightarrow> ndarray \<Rightarrow> Oscillator list \<Rightarrow> ndarray result) \<Rightarrow> vec \<Rightarrow> real list \<Rightarrow>
     Oscillator list \<Rightarrow> mat result" where
  "runge_kutta_4 f y0 t oscillators =
     (let n = length t;
          y = replicate n (replicate (length y0) 0)
      in and_then (set_row (length y0) y 0 y0)
           (for_loop [0..<n - 1] (rk4_iteration f t oscillators (length y0))))"

text \<open>
  The rule of the specification for one step, on total functions and plain vectors:
  \<open>k1 = h f(t_i, y_i)\<close>, \<open>k2 = h f(t_i + h/2, y_i + k1/2)\<close>,
  \<open>k3 = h f(t_i + h/2, y_i + k2/2)\<close>, \<open>k4 = h f(t_i + h, y_i + k3)\<close> and
  \<open>y_{i+1} = y_i + (k1 + 2 k2 + 2 k3 + k4) / 6\<close>. The integrator of the source is
  compared with it.
\<close>

definition vplus :: "vec \<Rightarrow> vec \<Rightarrow> vec" where
  "vplus a b = map2 (+) a b"

definition rk4_rule :: "(real \<Rightarrow> vec \<Rightarrow> vec) \<Rightarrow> real \<Rightarrow> real \<Rightarrow> vec \<Rightarrow> vec" where
  "rk4_rule f t_i h y_i =
     (let k1 = scale h (f t_i y_i);
          k2 = scale h (f (t_i + h / 2) (vplus y_i (divide_by k1 2)));
          k3 = scale h (f (t_i + h / 2) (vplus y_i (divide_by k2 2)));
          k4 = scale h (f (t_i + h) (vplus y_i k3))
      in vplus y_i (divide_by (vplus (vplus (vplus k1 (scale 2 k2)) (scale 2 k3)) k4) 6))"

text \<open>
  The oscillator sets of the data model: every coupling row has one entry per
  oscillator, and no mass is zero (the specification asks for positive masses).
\<close>

definition well_formed :: "Oscillator list \<Rightarrow> bool" where
  "well_formed oscillators =
     (\<forall>oscillator \<in> set oscillators.
        length (k_row oscillator) = length oscillators \<and> mass oscillator \<noteq> 0)"

text \<open>
  A derivative function that returns, on every float state of \<open>w\<close> entries, a float
  vector of \<open>w\<close> entries.
\<close>

definition length_preserving ::
  "nat \<Rightarrow> (real \<Rightarrow> ndarray \<Rightarrow> Oscillator list \<Rightarrow> ndarray result) \<Rightarrow> Oscillator list \<Rightarrow> bool"
  where
  "length_preserving w f oscillators =
     (\<forall>s v. length v = w \<longrightarrow>
        (\<exists>d. f s (Float64 v) oscillators = Inr (Float64 d) \<and> length d = w))"

text \<open>The derivative function as a total function on float vectors.\<close>

definition float_part ::
  "(real \<Rightarrow> ndarray \<Rightarrow> Oscillator list \<Rightarrow> ndarray result) \<Rightarrow> Oscillator list \<Rightarrow>
     real \<Rightarrow> vec \<Rightarrow> vec" where
  "float_part f oscillators s v = as_float (projr (f s (Float64 v) oscillators))"

text \<open>The acceleration law of the specification: \<open>-(couplingRow \<cdot> displacements) / mass\<close>.\<close>

definition acceleration :: "vec \<Rightarrow> Oscillator \<Rightarrow> real" where
  "acceleration x oscillator = - sum_list (map2 (*) (k_row oscillator) x) / mass oscillator"

subsection \<open>numpy's operations on two-dimensional arrays\<close>

text \<open>
  A two-dimensional array is the list of its rows, all of one length. An array without
  rows is \<open>[]\<close> and is taken to have no columns either, so that arrays of the shapes
  \<open>(0, c)\<close> with \<open>c \<ge> 1\<close> have no representation, and the transpose of an array of
  shape \<open>(r, 0)\<close> is \<open>[]\<close>. The arrays the program builds are square, of the shape
  \<open>(n, n)\<close> with \<open>n \<ge> 0\<close>, where the representation is exact.
\<close>

definition square :: "nat \<Rightarrow> mat \<Rightarrow> bool" where
  "square n m = (length m = n \<and> (\<forall>row \<in> set m. length row = n))"

text \<open>\<open>m.T\<close>.\<close>

definition np_T :: "mat \<Rightarrow> mat" where
  "np_T m = (case m of [] \<Rightarrow> [] | r # _ \<Rightarrow> map (\<lambda>j. map (\<lambda>row. row ! j) m) [0..<length r])"

primrec add_rows :: "(vec \<times> vec) list \<Rightarrow> mat result" where
  "add_rows [] = Inr []"
| "add_rows (p # ps) =
     and_then (np_add (fst p) (snd p)) (\<lambda>r. and_then (add_rows ps) (\<lambda>rs. Inr (r # rs)))"

text \<open>\<open>a + b\<close> for two-dimensional arrays: both axes broadcast.\<close>

definition np_add2 :: "mat \<Rightarrow> mat \<Rightarrow> mat result" where
  "np_add2 a b =
     (if length a = length b then add_rows (zip a b)
      else if length a = 1 then add_rows (map (\<lambda>rb. (hd a, rb)) b)
      else if length b = 1 then add_rows (map (\<lambda>ra. (ra, hd b)) a)
      else Inl broadcast_error)"

text \<open>\<open>a @ b\<close>: every row of \<open>a\<close> must have as many entries as \<open>b\<close> has rows.\<close>

definition matmul_error :: error where
  "matmul_error = ValueError ''matmul: Input operand 1 has a mismatch in its core dimension 0''"

definition np_matmul :: "mat \<Rightarrow> mat \<Rightarrow> mat result" where
  "np_matmul a b =
     (if list_all (\<lambda>row. length row = length b) a
      then Inr (map (\<lambda>row. map (\<lambda>col. sum_list (map2 (*) row col)) (np_T b)) a)
      else Inl matmul_error)"

text \<open>\<open>np.diag(v)\<close>.\<close>

definition np_diag :: "vec \<Rightarrow> mat" where
  "np_diag v = map (\<lambda>i. map (\<lambda>j. if i = j then v ! i else 0) [0..<length v]) [0..<length v]"

text \<open>\<open>np.max(np.abs(a))\<close>: the maximum of an empty array raises.\<close>

definition np_max_abs :: "mat \<Rightarrow> real result" where
  "np_max_abs a =
     (case concat a of [] \<Rightarrow> Inl empty_max_error
      | x # xs \<Rightarrow> Inr (fold max (map abs xs) \<bar>x\<bar>))"

text \<open>\<open>np.linspace(start, stop, num)\<close>.\<close>

definition linspace :: "real \<Rightarrow> real \<Rightarrow> nat \<Rightarrow> real list" where
  "linspace start stop num =
     map (\<lambda>i. start + real i * ((stop - start) / real (num - 1))) [0..<num]"

subsection \<open>Conditioning of the stiffness matrix\<close>

text \<open>
  \<open>np.linalg.eigh\<close> is numpy's, not this program's: the model takes it as the
  parameter \<open>eigh\<close>, which returns the eigenvalues and the matrix of eigenvectors, or
  raises. \<open>eigvals[eigvals < 0] = 1e-6\<close> replaces the negative eigenvalues only.
\<close>

type_synonym eigensolver = "mat \<Rightarrow> (vec \<times> mat) result"

definition replace_negative :: "vec \<Rightarrow> vec" where
  "replace_negative eigvals = map (\<lambda>v. if v < 0 then 1 / 1000000 else v) eigvals"

definition make_positive_definite :: "eigensolver \<Rightarrow> mat \<Rightarrow> mat result" where
  "make_positive_definite eigh k_matrix =
     and_then (eigh k_matrix) (\<lambda>(eigvals, eigvecs).
       let eigvals = replace_negative eigvals in
       and_then (np_matmul eigvecs (np_diag eigvals)) (\<lambda>vd. np_matmul vd (np_T eigvecs)))"

text \<open>Line 47 of \<open>plot_animation\<close>: \<open>(k_matrix + k_matrix.T) / 2\<close>.\<close>

definition symmetrize :: "mat \<Rightarrow> mat result" where
  "symmetrize k_matrix =
     and_then (np_add2 k_matrix (np_T k_matrix)) (\<lambda>s.
       Inr (map (\<lambda>row. divide_by row 2) s))"

text \<open>Lines 47 and 48: symmetrize, then clamp the eigenvalues.\<close>

definition condition_stiffness :: "eigensolver \<Rightarrow> mat \<Rightarrow> mat result" where
  "condition_stiffness eigh k_matrix =
     and_then (symmetrize k_matrix) (make_positive_definite eigh)"

text \<open>
  What the specification asks of the eigensolver: \<open>vals\<close> and \<open>vecs\<close> are an exact
  eigendecomposition of the \<open>n \<times> n\<close> matrix \<open>m\<close>, that is \<open>m = V \<Lambda> V\<^sup>T\<close> with \<open>\<Lambda>\<close> the
  diagonal matrix of \<open>vals\<close> and \<open>V = vecs\<close> orthogonal, its columns the eigenvectors.
\<close>

definition eigendecomposition :: "nat \<Rightarrow> mat \<Rightarrow> vec \<Rightarrow> mat \<Rightarrow> bool" where
  "eigendecomposition n m vals vecs =
     (length vals = n \<and> square n vecs \<and>
      (\<forall>k < n. \<forall>l < n. (\<Sum>i < n. vecs ! i ! k * vecs ! i ! l) = (if k = l then 1 else 0)) \<and>
      (\<forall>i < n. \<forall>j < n. (\<Sum>k < n. vecs ! i ! k * vecs ! j ! k) = (if i = j then 1 else 0)) \<and>
      (\<forall>i < n. \<forall>j < n. m ! i ! j = (\<Sum>k < n. vecs ! i ! k * vals ! k * vecs ! j ! k)))"

text \<open>
  An eigensolver for the examples, exact on \<open>1 \<times> 1\<close> matrices: the entry is the
  eigenvalue, and \<open>[1]\<close> the normalised eigenvector. It is not meant for other matrices
  and raises on them.
\<close>

definition eigh_1x1 :: eigensolver where
  "eigh_1x1 m =
     (case m of
        [[c]] \<Rightarrow> Inr ([c], [[1]])
      | _ \<Rightarrow> Inl (ValueError ''eigh_1x1: the matrix is not 1 x 1''))"

text \<open>
  A second eigensolver for the examples, exact on two symmetric \<open>2 \<times> 2\<close> matrices
  whose eigenvectors \<open>(3/5, 4/5)\<close> and \<open>(-4/5, 3/5)\<close> are rational; the eigenvalues are
  in ascending order, as numpy returns them.
\<close>

definition eigh_example :: eigensolver where
  "eigh_example m =
     (if m = [[23, - 36], [- 36, 2]]
      then Inr ([- 25, 50], [[3 / 5, - 4 / 5], [4 / 5, 3 / 5]])
      else if m = [[- 17, - 24], [- 24, - 31]]
      then Inr ([- 49, 1], [[3 / 5, - 4 / 5], [4 / 5, 3 / 5]])
      else Inl (ValueError ''eigh_example: the matrix is not in the table''))"



subsection \<open>The simulation of \<open>plot_animation\<close>, up to the drawing\<close>

text \<open>
  \<open>[Oscillator(masses[i], k_matrix[i]) for i in range(n)]\<close>: an index beyond the masses
  or the rows raises \<open>IndexError\<close>.
\<close>

definition build_oscillators :: "nat \<Rightarrow> real list \<Rightarrow> mat \<Rightarrow> Oscillator list result" where
  "build_oscillators n masses k_matrix =
     (if n \<le> length masses \<and> n \<le> length k_matrix
      then Inr (map (\<lambda>i. \<lparr>mass = masses ! i, k_row = k_matrix ! i\<rparr>) [0..<n])
      else Inl IndexError)"

text \<open>What the drawing code receives: the trajectory and the spacing \<open>a\<close> of the blocks.\<close>

record Handoff =
  solution :: mat
  spacing :: real

text \<open>Lines 55 to 60: the largest displacement, the check for a zero trajectory, the spacing.\<close>

definition check_amplitude :: "nat \<Rightarrow> mat \<Rightarrow> Handoff result" where
  "check_amplitude n sol =
     and_then (np_max_abs (map (take n) sol)) (\<lambda>max_amplitude.
       if max_amplitude = 0 then Inl InvalidTrajectory
       else Inr \<lparr>solution = sol, spacing = max 0.5 (2 * max_amplitude)\<rparr>)"

text \<open>
  \<open>plot_animation\<close> on the time grid \<open>t\<close>; the source fixes
  \<open>t = np.linspace(0, 20, 1000)\<close>.
\<close>

definition simulate ::
  "eigensolver \<Rightarrow> real list \<Rightarrow> nat \<Rightarrow> real list \<Rightarrow> mat \<Rightarrow> vec \<Rightarrow> vec \<Rightarrow> Handoff result" where
  "simulate eigh t n masses k_matrix initial_displacements initial_velocities =
     and_then (condition_stiffness eigh k_matrix) (\<lambda>k_matrix.
     and_then (build_oscillators n masses k_matrix) (\<lambda>oscillators.
       let y0 = initial_displacements @ initial_velocities in
       and_then (runge_kutta_4 derivatives y0 t oscillators) (check_amplitude n)))"

definition plot_animation ::
  "eigensolver \<Rightarrow> nat \<Rightarrow> real list \<Rightarrow> mat \<Rightarrow> vec \<Rightarrow> vec \<Rightarrow> Handoff result" where
  "plot_animation eigh = simulate eigh (linspace 0 20 1000)"

text \<open>
  The callers at module level: \<open>try: plot_animation(...) except ValueError as e:
  print("Error:", e)\<close>. A \<open>ValueError\<close> is printed and the script goes on; any other
  exception ends it.
\<close>

datatype outcome = Drawn Handoff | Printed string | Uncaught error

definition run_example :: "Handoff result \<Rightarrow> outcome" where
  "run_example r =
     (case r of
        Inr h \<Rightarrow> Drawn h
      | Inl (ValueError msg) \<Rightarrow> Printed (''Error: '' @ msg)
      | Inl e \<Rightarrow> Uncaught e)"

section \<open>Properties\<close>

subsection \<open>Sequencing and loops\<close>

lemma and_then_Inr [simp]: "and_then (Inr v) k = k v"
  by (simp add: and_then_def)

lemma and_then_Inl [simp]: "and_then (Inl e) k = Inl e"
  by (simp add: and_then_def)

lemma for_loop_append:
  "for_loop (xs @ ys) body s = and_then (for_loop xs body s) (for_loop ys body)"
  by (induction xs arbitrary: s) (auto split: sum.splits)

lemma for_loop_invariant:
  assumes "Inv 0 s"
    and "\<And>i s. i < n \<Longrightarrow> Inv i s \<Longrightarrow> \<exists>s'. body i s = Inr s' \<and> Inv (Suc i) s'"
  shows "\<exists>s'. for_loop [0..<n] body s = Inr s' \<and> Inv n s'"
  using assms(2)
proof (induction n)
  case 0
  then show ?case using assms(1) by simp
next
  case (Suc n)
  then obtain s1 where s1: "for_loop [0..<n] body s = Inr s1" "Inv n s1"
    by (metis less_Suc_eq)
  from Suc.prems[of n s1] s1 obtain s2 where "body n s1 = Inr s2" "Inv (Suc n) s2"
    by auto
  with s1 show ?case
    by (simp add: for_loop_append)
qed

lemma for_loop_cong:
  "(\<And>i s. i \<in> set js \<Longrightarrow> b1 i s = b2 i s) \<Longrightarrow> for_loop js b1 s = for_loop js b2 s"
  by (induction js arbitrary: s) (auto split: sum.splits)

lemma equationOfBlock_ok:
  "length (k_row oscillator) = length (as_float x) \<Longrightarrow>
   equationOfBlock oscillator x = Inr (acceleration (as_float x) oscillator)"
  by (simp add: equationOfBlock_def np_dot_def acceleration_def)

lemma derivatives_total:
  assumes rows: "\<forall>oscillator \<in> set oscs. length (k_row oscillator) = length oscs"
    and len: "length y = 2 * length oscs"
  shows "derivatives t (Float64 y) oscs =
           Inr (Float64 (drop (length oscs) y @ map (acceleration (take (length oscs) y)) oscs))"
proof -
  let ?n = "length oscs"
  let ?x = "take ?n y"
  let ?body = "\<lambda>i dydt. and_then (equationOfBlock (oscs ! i) (Float64 ?x))
                 (set_item dydt (?n + i))"
  let ?Inv = "\<lambda>k d. d = Float64 (drop ?n y @ map (acceleration ?x) (take k oscs) @
                 replicate (?n - k) 0)"
  have start: "set_prefix (Float64 (replicate (length y) 0)) ?n (Float64 (drop ?n y)) =
      Inr (Float64 (drop ?n y @ replicate ?n 0))"
    using len by (simp add: assign_prefix_def Let_def)
  have step: "\<exists>s'. ?body i s = Inr s' \<and> ?Inv (Suc i) s'" if "i < ?n" "?Inv i s" for i s
  proof -
    have eq: "equationOfBlock (oscs ! i) (Float64 ?x) = Inr (acceleration ?x (oscs ! i))"
      using rows that(1) len equationOfBlock_ok[of "oscs ! i" "Float64 ?x"] by simp
    have rep: "replicate (?n - i) (0::real) = 0 # replicate (?n - Suc i) 0"
      using that(1) by (metis Suc_diff_Suc replicate_Suc)
    show ?thesis
      using that len unfolding eq
      by (simp add: list_update_append take_Suc_conv_app_nth rep)
  qed
  have "\<exists>s'. for_loop [0..<?n] ?body (Float64 (drop ?n y @ replicate ?n 0)) = Inr s' \<and>
      ?Inv ?n s'"
    by (rule for_loop_invariant[where Inv = ?Inv]) (use step in auto)
  then show ?thesis
    unfolding derivatives_def Let_def zeros_like.simps slice_to.simps slice_from.simps start
    by auto
qed

lemma length_preservingD:
  assumes "length_preserving w f oscs" "length v = w"
  shows "f s (Float64 v) oscs = Inr (Float64 (float_part f oscs s v))"
    and "length (float_part f oscs s v) = w"
proof -
  from assms obtain d where "f s (Float64 v) oscs = Inr (Float64 d)" "length d = w"
    unfolding length_preserving_def by blast
  then show "f s (Float64 v) oscs = Inr (Float64 (float_part f oscs s v))"
    and "length (float_part f oscs s v) = w"
    by (simp_all add: float_part_def)
qed

lemma np_add_same: "length a = length b \<Longrightarrow> np_add a b = Inr (vplus a b)"
  by (simp add: np_add_def vplus_def)

lemma length_vplus [simp]: "length (vplus a b) = min (length a) (length b)"
  by (simp add: vplus_def)

lemma length_scale [simp]: "length (scale c v) = length v"
  by (simp add: scale_def)

lemma length_divide_by [simp]: "length (divide_by v c) = length v"
  by (simp add: divide_by_def)

lemma rk4_rule_length:
  assumes "\<And>s v. length v = w \<Longrightarrow> length (g s v) = w" "length y = w"
  shows "length (rk4_rule g s h y) = w"
  using assms by (simp add: rk4_rule_def Let_def)

lemma rk4_iteration_ok:
  assumes f: "length_preserving w f oscs"
    and row: "length (y ! i) = w" and i: "i + 1 < length y"
  shows "rk4_iteration f t oscs w i y =
           Inr (y[i + 1 := rk4_rule (float_part f oscs) (t ! i) (t ! (i + 1) - t ! i) (y ! i)])"
proof -
  define g where "g = float_part f oscs"
  have fg: "f s (Float64 v) oscs = Inr (Float64 (g s v))" and lg: "length (g s v) = w"
    if "length v = w" for s v
    using length_preservingD[OF f that] by (simp_all add: g_def)
  have "rk4_iteration f t oscs w i y =
           Inr (y[i + 1 := rk4_rule g (t ! i) (t ! (i + 1) - t ! i) (y ! i)])"
    unfolding rk4_iteration_def rk4_rule_def Let_def
    using row i by (simp add: fg lg np_add_same set_row_def)
  then show ?thesis by (simp add: g_def)
qed

lemma runge_kutta_4_empty: "runge_kutta_4 f y0 [] oscs = Inl IndexError"
  by (simp add: runge_kutta_4_def set_row_def)

lemma runge_kutta_4_rows:
  assumes f: "length_preserving (length y0) f oscs" and t: "t \<noteq> []"
  shows "\<exists>Y. runge_kutta_4 f y0 t oscs = Inr Y \<and> length Y = length t \<and>
           (\<forall>r \<in> set Y. length r = length y0) \<and> Y ! 0 = y0 \<and>
           (\<forall>i. i + 1 < length t \<longrightarrow>
              Y ! (i + 1) =
                rk4_rule (float_part f oscs) (t ! i) (t ! (i + 1) - t ! i) (Y ! i))"
proof -
  let ?w = "length y0"
  let ?g = "float_part f oscs"
  let ?step = "\<lambda>i. rk4_rule ?g (t ! i) (t ! (i + 1) - t ! i)"
  let ?Inv = "\<lambda>k Y. length Y = length t \<and> (\<forall>r \<in> set Y. length r = ?w) \<and> Y ! 0 = y0 \<and>
                (\<forall>j < k. Y ! (j + 1) = ?step j (Y ! j))"
  let ?Y0 = "(replicate (length t) (replicate ?w (0::real)))[0 := y0]"
  from t have start: "set_row ?w (replicate (length t) (replicate ?w 0)) 0 y0 = Inr ?Y0"
    by (simp add: set_row_def)
  have inv0: "?Inv 0 ?Y0"
    using t by (auto dest!: set_update_subset_insert[THEN subsetD])
  have step: "\<exists>Y'. rk4_iteration f t oscs ?w k Y = Inr Y' \<and> ?Inv (Suc k) Y'"
    if k: "k < length t - 1" and inv: "?Inv k Y" for k Y
  proof -
    from k inv have bound: "k + 1 < length Y" and row: "length (Y ! k) = ?w"
      by auto
    have len: "length (?step k (Y ! k)) = ?w"
      by (rule rk4_rule_length) (use length_preservingD(2)[OF f] row in auto)
    let ?Y' = "Y[k + 1 := ?step k (Y ! k)]"
    have "\<forall>r \<in> set ?Y'. length r = ?w"
      using inv len by (auto dest!: set_update_subset_insert[THEN subsetD])
    moreover have "\<forall>j < Suc k. ?Y' ! (j + 1) = ?step j (?Y' ! j)"
      using inv bound by (auto simp: nth_list_update less_Suc_eq)
    ultimately have "?Inv (Suc k) ?Y'"
      using inv by simp
    then show ?thesis
      using rk4_iteration_ok[OF f row bound, of t] by simp
  qed
  have "\<exists>Y. for_loop [0..<length t - 1] (rk4_iteration f t oscs ?w) ?Y0 = Inr Y \<and>
          ?Inv (length t - 1) Y"
    by (rule for_loop_invariant[where Inv = ?Inv, OF inv0 step])
  then show ?thesis
    unfolding runge_kutta_4_def Let_def start by auto
qed

lemma derivatives_length_preserving:
  "\<forall>oscillator \<in> set oscs. length (k_row oscillator) = length oscs \<Longrightarrow>
   length_preserving (2 * length oscs) derivatives oscs"
  unfolding length_preserving_def by (simp add: derivatives_total)

lemma float_part_derivatives:
  assumes "\<forall>oscillator \<in> set oscs. length (k_row oscillator) = length oscs"
    and "length y = 2 * length oscs"
  shows "float_part derivatives oscs s y =
           drop (length oscs) y @ map (acceleration (take (length oscs) y)) oscs"
  by (simp add: float_part_def derivatives_total[OF assms])

lemma well_formed_rows:
  "well_formed oscs \<Longrightarrow> \<forall>oscillator \<in> set oscs. length (k_row oscillator) = length oscs"
  by (simp add: well_formed_def)

lemma dot_as_sum:
  "length a = length b \<Longrightarrow> sum_list (map2 (*) a b) = (\<Sum>j < length a. a ! j * b ! (j::nat))"
  for a b :: "real list"
  by (simp add: sum_list_sum_nth atLeast0LessThan)

subsection \<open>The integrator follows the classical rule\<close>

text \<open>
  Claim C1. For an initial state \<open>y0\<close> of \<open>2n\<close> entries, a well-formed set of \<open>n\<close>
  oscillators and a time grid with at least one point, \<open>runge_kutta_4\<close> returns a
  trajectory \<open>Y\<close> with one row per grid point that starts at \<open>y0\<close> and in which, for
  every pair of consecutive grid points \<open>t_i\<close>, \<open>t_{i+1}\<close>, the row \<open>i + 1\<close> is the row
  \<open>i\<close> advanced by the classical four-stage rule with the step \<open>h = t_{i+1} - t_i\<close> and
  the derivative function as \<open>f\<close>. The start and the rule determine every row.
\<close>

theorem runge_kutta_4_classical_rule:
  assumes "well_formed oscillators"
    and "length y0 = 2 * length oscillators"
    and "t \<noteq> []"
  shows "\<exists>Y. runge_kutta_4 derivatives y0 t oscillators = Inr Y \<and>
           length Y = length t \<and>
           Y ! 0 = y0 \<and>
           (\<forall>i. i + 1 < length t \<longrightarrow>
              Y ! (i + 1) =
                rk4_rule (float_part derivatives oscillators)
                  (t ! i) (t ! (i + 1) - t ! i) (Y ! i))"
proof -
  have "length_preserving (2 * length oscillators) derivatives oscillators"
    using assms(1) by (intro derivatives_length_preserving well_formed_rows)
  then have "length_preserving (length y0) derivatives oscillators"
    using assms(2) by simp
  from runge_kutta_4_rows[OF this assms(3)] show ?thesis
    by blast
qed

lemma float_part_derivatives_single:
  "float_part derivatives [\<lparr>mass = m, k_row = [c]\<rparr>] s [a, b] = [b, - (c * a) / m]"
  by (simp add: float_part_derivatives acceleration_def)

theorem runge_kutta_4_classical_rule_witness:
  "well_formed [\<lparr>mass = 1, k_row = [1]\<rparr>] \<and>
   (\<exists>Y. runge_kutta_4 derivatives [1, 0] [0, 1] [\<lparr>mass = 1, k_row = [1]\<rparr>] = Inr Y \<and>
      length Y = 2 \<and> Y ! 0 = [1, 0] \<and> Y ! 1 = [13 / 24, - 5 / 6])"
proof -
  let ?o = "[\<lparr>mass = 1, k_row = [1::real]\<rparr>]"
  have wf: "well_formed ?o"
    by (simp add: well_formed_def)
  from runge_kutta_4_classical_rule[OF wf, of "[1, 0]" "[0, 1]"]
  obtain Y where Y: "runge_kutta_4 derivatives [1, 0] [0, 1] ?o = Inr Y" "length Y = 2"
    "Y ! 0 = [1, 0]"
    and rule: "\<forall>i. i + 1 < length [0, 1 :: real] \<longrightarrow>
       Y ! (i + 1) = rk4_rule (float_part derivatives ?o)
         ([0, 1] ! i) ([0, 1] ! (i + 1) - [0, 1] ! i) (Y ! i)"
    by auto
  from rule[rule_format, of 0] Y(3)
  have "Y ! 1 = rk4_rule (float_part derivatives ?o) 0 1 [1, 0]"
    by simp
  also have "\<dots> = [13 / 24, - 5 / 6]"
    by (simp add: rk4_rule_def Let_def float_part_derivatives_single scale_def divide_by_def
        vplus_def)
  finally show ?thesis
    using wf Y by blast
qed

subsection \<open>The derivative function\<close>

text \<open>
  Claim C2, as amended. For a well-formed set of \<open>n\<close> oscillators and a state \<open>y\<close> of
  \<open>2n\<close> floats, \<open>derivatives\<close> returns a vector of \<open>2n\<close> floats: the first \<open>n\<close> are the
  velocities \<open>y[n..2n)\<close>, and the entry \<open>n + i\<close> is
  \<open>-(couplingRow_i \<cdot> displacements) / mass_i\<close> on the displacements \<open>y[0..n)\<close>.
\<close>

theorem derivatives_contract:
  assumes "well_formed oscillators"
    and "length y = 2 * length oscillators"
  shows "\<exists>dydt. derivatives t (Float64 y) oscillators = Inr (Float64 dydt) \<and>
           length dydt = 2 * length oscillators \<and>
           take (length oscillators) dydt = drop (length oscillators) y \<and>
           (\<forall>i < length oscillators.
              dydt ! (length oscillators + i) =
                - (\<Sum>j < length oscillators. k_row (oscillators ! i) ! j * y ! j) /
                  mass (oscillators ! i))"
proof -
  let ?n = "length oscillators"
  let ?d = "drop ?n y @ map (acceleration (take ?n y)) oscillators"
  have rows: "\<forall>oscillator \<in> set oscillators. length (k_row oscillator) = ?n"
    using assms(1) by (rule well_formed_rows)
  have "derivatives t (Float64 y) oscillators = Inr (Float64 ?d)"
    using rows assms(2) by (rule derivatives_total)
  moreover have "length ?d = 2 * ?n" "take ?n ?d = drop ?n y"
    using assms(2) by simp_all
  moreover have "?d ! (?n + i) =
      - (\<Sum>j < ?n. k_row (oscillators ! i) ! j * y ! j) / mass (oscillators ! i)"
    if "i < ?n" for i
  proof -
    have "length (k_row (oscillators ! i)) = length (take ?n y)"
      using rows that assms(2) by simp
    then have "sum_list (map2 (*) (k_row (oscillators ! i)) (take ?n y)) =
        (\<Sum>j < ?n. k_row (oscillators ! i) ! j * y ! j)"
      using rows that by (simp add: dot_as_sum)
    then show ?thesis
      using that assms(2) by (simp add: nth_append acceleration_def)
  qed
  ultimately show ?thesis
    by blast
qed

theorem derivatives_contract_witness:
  "well_formed [\<lparr>mass = 2, k_row = [3, 1]\<rparr>, \<lparr>mass = 1, k_row = [1, 4]\<rparr>] \<and>
   length [1, 2, 5, 7 :: real] = 2 * length [\<lparr>mass = 2, k_row = [3, 1]\<rparr>, \<lparr>mass = 1, k_row = [1, 4]\<rparr>] \<and>
   derivatives 0 (Float64 [1, 2, 5, 7])
     [\<lparr>mass = 2, k_row = [3, 1]\<rparr>, \<lparr>mass = 1, k_row = [1, 4]\<rparr>] =
     Inr (Float64 [5, 7, - 5 / 2, - 9])"
proof -
  let ?o = "[\<lparr>mass = 2, k_row = [3, 1]\<rparr>, \<lparr>mass = 1, k_row = [1, 4::real]\<rparr>]"
  have wf: "well_formed ?o"
    by (simp add: well_formed_def)
  have len: "length [1, 2, 5, 7 :: real] = 2 * length ?o"
    by simp
  from derivatives_contract[OF wf len, of 0]
  obtain d where d: "derivatives 0 (Float64 [1, 2, 5, 7]) ?o = Inr (Float64 d)"
    "length d = 2 * length ?o"
    "take (length ?o) d = drop (length ?o) [1, 2, 5, 7]"
    and acc: "\<forall>i < length ?o. d ! (length ?o + i) =
        - (\<Sum>j < length ?o. k_row (?o ! i) ! j * [1, 2, 5, 7] ! j) / mass (?o ! i)"
    by blast
  from acc[rule_format, of 0] have d2: "d ! 2 = - 5 / 2"
    by (simp add: lessThan_Suc numeral_2_eq_2)
  from acc[rule_format, of 1] have d3: "d ! 3 = - 9"
    by (simp add: lessThan_Suc numeral_2_eq_2 numeral_3_eq_3)
  from d(2) obtain a b c e where abce: "d = [a, b, c, e]"
    by (auto simp: length_Suc_conv numeral_eq_Suc)
  with d(3) d2 d3 have "d = [5, 7, - 5 / 2, - 9]"
    by (simp add: numeral_eq_Suc)
  with wf d(1) show ?thesis
    by simp
qed

text \<open>
  Claim C2 as stated covers every state vector. On a state of integers
  \<open>np.zeros_like(y)\<close> is an array of integers, and the acceleration \<open>-5/2\<close> is stored
  as \<open>-2\<close>.
\<close>

theorem derivatives_truncates_integer_state:
  "derivatives 0 (Int64 [1, 2, 5, 7])
     [\<lparr>mass = 2, k_row = [3, 1]\<rparr>, \<lparr>mass = 1, k_row = [1, 4]\<rparr>] =
     Inr (Int64 [5, 7, - 2, - 9]) \<and>
   - (3 * 1 + 1 * 2) / 2 \<noteq> real_of_int (- 2)"
proof -
  have "to_int64 (- (5 / 2)) = - 2" "to_int64 (- 9) = - 9"
    by (simp_all add: to_int64_def)
  then show ?thesis
    unfolding derivatives_def Let_def
    by (simp add: assign_prefix_def equationOfBlock_def np_dot_def)
qed

subsection \<open>The shape of the trajectory\<close>

text \<open>
  Claim C5. For \<open>n\<close> initial displacements, \<open>n\<close> initial velocities, a well-formed set of
  \<open>n\<close> oscillators and a grid of \<open>m \<ge> 1\<close> points, the integrator returns a trajectory
  of exactly \<open>m\<close> rows, each of \<open>2n\<close> entries, whose row \<open>0\<close> is the displacements
  followed by the velocities.
\<close>

theorem trajectory_shape:
  assumes "well_formed oscillators"
    and "length initial_displacements = length oscillators"
    and "length initial_velocities = length oscillators"
    and "t \<noteq> []"
  shows "\<exists>Y. runge_kutta_4 derivatives (initial_displacements @ initial_velocities) t oscillators
               = Inr Y \<and>
           length Y = length t \<and>
           (\<forall>row \<in> set Y. length row = 2 * length oscillators) \<and>
           Y ! 0 = initial_displacements @ initial_velocities"
proof -
  let ?y0 = "initial_displacements @ initial_velocities"
  have len: "length ?y0 = 2 * length oscillators"
    using assms(2,3) by simp
  have "length_preserving (2 * length oscillators) derivatives oscillators"
    using assms(1) by (intro derivatives_length_preserving well_formed_rows)
  then have "length_preserving (length ?y0) derivatives oscillators"
    using len by simp
  from runge_kutta_4_rows[OF this assms(4)] len show ?thesis
    by auto
qed

theorem trajectory_shape_witness:
  "well_formed [\<lparr>mass = 1, k_row = [1]\<rparr>] \<and>
   (\<exists>Y. runge_kutta_4 derivatives ([1] @ [0]) [0, 1, 3] [\<lparr>mass = 1, k_row = [1]\<rparr>] = Inr Y \<and>
      length Y = 3 \<and> (\<exists>r \<in> set Y. length r = 2) \<and> Y ! 0 = [1, 0])"
proof -
  let ?o = "[\<lparr>mass = 1, k_row = [1::real]\<rparr>]"
  have wf: "well_formed ?o"
    by (simp add: well_formed_def)
  from trajectory_shape[OF wf, of "[1]" "[0]" "[0, 1, 3]"]
  obtain Y where Y: "runge_kutta_4 derivatives ([1] @ [0]) [0, 1, 3] ?o = Inr Y"
    "length Y = 3" "\<forall>row \<in> set Y. length row = 2" "Y ! 0 = [1, 0]"
    by auto
  from Y(2) have "Y \<noteq> []" by auto
  with Y(3) have "\<exists>r \<in> set Y. length r = 2"
    by (cases Y) auto
  with wf Y show ?thesis by blast
qed

subsection \<open>Degenerate grids\<close>

text \<open>
  Claim C6, as amended. For a grid of exactly one point, the integrator returns the
  single-row trajectory \<open>[y0]\<close> and raises nothing, whatever the derivative function:
  it is never called.
\<close>

theorem single_point_grid:
  "length t = 1 \<Longrightarrow> runge_kutta_4 f y0 t oscillators = Inr [y0]"
proof -
  assume "length t = 1"
  then obtain a where "t = [a]"
    by (cases t) auto
  then show ?thesis
    by (simp add: runge_kutta_4_def set_row_def)
qed

theorem single_point_grid_witness:
  "length [0::real] = 1 \<and>
   runge_kutta_4 derivatives [1, 0] [0] [\<lparr>mass = 1, k_row = [1]\<rparr>] = Inr [[1, 0]]"
  using single_point_grid[of "[0]" derivatives "[1, 0]" "[\<lparr>mass = 1, k_row = [1]\<rparr>]"]
  by simp

text \<open>
  Claim C6 as stated also covers the grid without points. There the array \<open>y\<close> has no
  row, and \<open>y[0] = y0\<close> raises \<open>IndexError\<close>: no trajectory is returned.
\<close>

theorem empty_grid_raises:
  "runge_kutta_4 derivatives [1, 0] [] [\<lparr>mass = 1, k_row = [1]\<rparr>] = Inl IndexError"
  by (simp add: runge_kutta_4_def set_row_def)

subsection \<open>The time argument\<close>

lemma derivatives_ignores_time: "derivatives t1 y oscs = derivatives t2 y oscs"
  by (simp add: derivatives_def)

lemma rk4_iteration_autonomous:
  assumes "t ! (i + 1) - t ! i = t' ! (i + 1) - t' ! i"
  shows "rk4_iteration (\<lambda>s. g) t oscs w i y = rk4_iteration (\<lambda>s. g) t' oscs w i y"
  unfolding rk4_iteration_def assms by simp

lemma rk4_iteration_differences:
  assumes "t ! (i + 1) - t ! i = t' ! (i + 1) - t' ! i"
  shows "rk4_iteration derivatives t oscs w i y = rk4_iteration derivatives t' oscs w i y"
proof -
  have eq: "(\<lambda>s. derivatives 0) = derivatives"
    by (intro ext) (rule derivatives_ignores_time)
  from rk4_iteration_autonomous[OF assms, of "derivatives 0"] show ?thesis
    unfolding eq .
qed

text \<open>
  Claim C10. \<open>derivatives\<close> returns the same result at any two times; hence two grids of
  the same length with the same consecutive differences give the same result of
  \<open>runge_kutta_4\<close>, be it a trajectory or an exception.
\<close>

theorem grid_enters_through_differences:
  "derivatives t1 y oscillators = derivatives t2 y oscillators \<and>
   (length t = length t' \<and>
    (\<forall>i. i + 1 < length t \<longrightarrow> t ! (i + 1) - t ! i = t' ! (i + 1) - t' ! i) \<longrightarrow>
    runge_kutta_4 derivatives y0 t oscillators = runge_kutta_4 derivatives y0 t' oscillators)"
proof (intro conjI impI)
  show "derivatives t1 y oscillators = derivatives t2 y oscillators"
    by (rule derivatives_ignores_time)
next
  assume h: "length t = length t' \<and>
    (\<forall>i. i + 1 < length t \<longrightarrow> t ! (i + 1) - t ! i = t' ! (i + 1) - t' ! i)"
  have "for_loop [0..<length t - 1] (rk4_iteration derivatives t oscillators (length y0)) =
        for_loop [0..<length t - 1] (rk4_iteration derivatives t' oscillators (length y0))"
    by (rule ext, rule for_loop_cong, rule rk4_iteration_differences) (use h in auto)
  then show "runge_kutta_4 derivatives y0 t oscillators = runge_kutta_4 derivatives y0 t' oscillators"
    using h by (simp add: runge_kutta_4_def Let_def)
qed

theorem grid_enters_through_differences_witness:
  "derivatives 0 (Float64 [1, 0]) [\<lparr>mass = 1, k_row = [1]\<rparr>] =
     derivatives 7 (Float64 [1, 0]) [\<lparr>mass = 1, k_row = [1]\<rparr>] \<and>
   runge_kutta_4 derivatives [1, 0] [0, 1, 3] [\<lparr>mass = 1, k_row = [1]\<rparr>] =
   runge_kutta_4 derivatives [1, 0] [5, 6, 8] [\<lparr>mass = 1, k_row = [1]\<rparr>]"
proof -
  have "i + 1 < length [0, 1, 3::real] \<longrightarrow>
      [0, 1, 3::real] ! (i + 1) - [0, 1, 3] ! i = [5, 6, 8] ! (i + 1) - [5, 6, 8] ! i" for i
    by (auto simp: less_Suc_eq nth_Cons')
  then show ?thesis
    using grid_enters_through_differences[of 0 "Float64 [1, 0]" "[\<lparr>mass = 1, k_row = [1]\<rparr>]" 7
        "[0, 1, 3]" "[5, 6, 8]" "[1, 0]"]
    by simp
qed

subsection \<open>The largest displacement\<close>

lemma np_max_abs_nonempty:
  assumes "concat a \<noteq> []"
  shows "np_max_abs a = Inr (Max (abs ` set (concat a)))"
proof -
  from assms obtain x xs where c: "concat a = x # xs"
    by (cases "concat a") auto
  have "fold max (map abs xs) \<bar>x\<bar> = Max (set (\<bar>x\<bar> # map abs xs))"
    by (simp only: Max.set_eq_fold)
  then show ?thesis
    by (simp add: np_max_abs_def c)
qed

lemma np_max_abs_empty: "concat a = [] \<Longrightarrow> np_max_abs a = Inl empty_max_error"
  unfolding np_max_abs_def by (simp only: list.case)

lemma Max_abs_zero_iff:
  fixes S :: "real set"
  assumes "finite S" "S \<noteq> {}"
  shows "(Max (abs ` S) = 0) = (\<forall>x \<in> S. x = 0)"
proof
  assume m: "Max (abs ` S) = 0"
  show "\<forall>x \<in> S. x = 0"
  proof
    fix x assume "x \<in> S"
    then have "\<bar>x\<bar> \<le> Max (abs ` S)"
      using assms(1) by (intro Max_ge) auto
    with m show "x = 0" by simp
  qed
next
  assume "\<forall>x \<in> S. x = 0"
  with assms(2) have "abs ` S = {0}"
    by auto
  then show "Max (abs ` S) = 0"
    by simp
qed

lemma InvalidTrajectory_neq [simp]:
  "InvalidTrajectory \<noteq> empty_max_error" "empty_max_error \<noteq> InvalidTrajectory"
  by (simp_all add: InvalidTrajectory_def empty_max_error_def)

lemma check_amplitude_iff:
  assumes "concat (map (take n) sol) \<noteq> []"
  shows "(check_amplitude n sol = Inl InvalidTrajectory) =
         (\<forall>row \<in> set sol. \<forall>x \<in> set (take n row). x = 0)"
proof -
  let ?S = "set (concat (map (take n) sol))"
  have "(check_amplitude n sol = Inl InvalidTrajectory) = (Max (abs ` ?S) = 0)"
    unfolding check_amplitude_def np_max_abs_nonempty[OF assms] by simp
  also have "\<dots> = (\<forall>x \<in> ?S. x = 0)"
    using assms by (intro Max_abs_zero_iff) auto
  also have "\<dots> = (\<forall>row \<in> set sol. \<forall>x \<in> set (take n row). x = 0)"
    by auto
  finally show ?thesis .
qed

lemma check_amplitude_empty:
  "concat (map (take n) sol) = [] \<Longrightarrow> check_amplitude n sol = Inl empty_max_error"
  by (simp add: check_amplitude_def np_max_abs_empty)

subsection \<open>The zero state\<close>

lemma scale_zero [simp]: "scale c (replicate w 0) = replicate w 0"
  by (simp add: scale_def)

lemma divide_by_zero [simp]: "divide_by (replicate w 0) c = replicate w 0"
  by (simp add: divide_by_def)

lemma vplus_zero [simp]: "vplus (replicate w 0) (replicate w 0) = replicate w 0"
  by (simp add: vplus_def)

lemma sum_list_map2_zero:
  "sum_list (map2 (*) a (replicate m (0::real))) = 0"
proof (induction a arbitrary: m)
  case Nil
  show ?case by simp
next
  case (Cons x a)
  show ?case by (cases m) (simp_all add: Cons.IH)
qed

lemma derivatives_zero:
  assumes "\<forall>oscillator \<in> set oscs. length (k_row oscillator) = length oscs"
  shows "derivatives s (Float64 (replicate (2 * length oscs) 0)) oscs =
           Inr (Float64 (replicate (2 * length oscs) 0))"
proof -
  let ?n = "length oscs"
  have "map (acceleration (replicate ?n 0)) oscs = replicate ?n 0"
    by (simp add: acceleration_def[abs_def] sum_list_map2_zero map_replicate_const)
  moreover have "replicate (2 * ?n) (0::real) = replicate ?n 0 @ replicate ?n 0"
    by (simp add: replicate_add[symmetric] mult_2)
  ultimately show ?thesis
    using derivatives_total[OF assms, of "replicate (2 * ?n) 0" s] by simp
qed

lemma rk4_rule_zero:
  assumes "\<And>s. g s (replicate w 0) = replicate w 0"
  shows "rk4_rule g s h (replicate w 0) = replicate w 0"
  by (simp add: rk4_rule_def assms)

lemma zero_trajectory:
  assumes rows: "\<forall>oscillator \<in> set oscillators. length (k_row oscillator) = length oscillators"
    and t: "t \<noteq> []"
  shows "runge_kutta_4 derivatives
           (replicate (length oscillators) 0 @ replicate (length oscillators) 0) t oscillators =
           Inr (replicate (length t) (replicate (2 * length oscillators) 0))"
proof -
  let ?n = "length oscillators"
  let ?z = "replicate (2 * ?n) (0::real)"
  let ?g = "float_part derivatives oscillators"
  have z: "replicate ?n 0 @ replicate ?n 0 = ?z"
    by (simp add: replicate_add[symmetric] mult_2)
  have "length_preserving (length ?z) derivatives oscillators"
    using derivatives_length_preserving[OF rows] by simp
  from runge_kutta_4_rows[OF this t]
  obtain Y where Y: "runge_kutta_4 derivatives ?z t oscillators = Inr Y" "length Y = length t"
    "Y ! 0 = ?z"
    "\<And>i. i + 1 < length t \<Longrightarrow> Y ! (i + 1) = rk4_rule ?g (t ! i) (t ! (i + 1) - t ! i) (Y ! i)"
    by blast
  have gz: "?g s ?z = ?z" for s
    by (simp add: float_part_def derivatives_zero[OF rows])
  have "Y ! i = ?z" if "i < length t" for i
    using that
  proof (induction i)
    case 0
    show ?case by (rule Y(3))
  next
    case (Suc i)
    then have "Y ! i = ?z" by simp
    with Y(4)[of i] Suc.prems show ?case
      by (simp add: rk4_rule_zero[of ?g, OF gz])
  qed
  then have "Y = replicate (length t) ?z"
    using Y(2) by (simp add: list_eq_iff_nth_eq)
  with Y(1) show ?thesis
    by (simp add: z)
qed

lemma check_amplitude_zero:
  assumes "0 < n" and "0 < m"
  shows "check_amplitude n (replicate m (replicate (2 * n) 0)) = Inl InvalidTrajectory"
proof -
  have "concat (map (take n) (replicate m (replicate (2 * n) (0::real)))) \<noteq> []"
    using assms by (cases m) auto
  from check_amplitude_iff[OF this] show ?thesis
    by (auto dest: in_set_takeD)
qed

lemma length_linspace [simp]: "length (linspace start stop num) = num"
  by (simp add: linspace_def)

text \<open>
  Claim C8. For a well-formed oscillator set and zero initial displacements and
  velocities, every trajectory the integrator returns has all its rows zero, on any
  time grid, and it returns one on every grid with at least one point (on the empty
  grid it raises, as for any initial state). For at least one oscillator,
  \<open>plot_animation\<close> then raises the error of the zero trajectory, once the stiffness
  matrix has been conditioned into this oscillator set.
\<close>

theorem zero_state_is_preserved:
  assumes "well_formed oscillators"
  shows "(\<forall>Y. runge_kutta_4 derivatives
                (replicate (length oscillators) 0 @ replicate (length oscillators) 0) t
                oscillators = Inr Y \<longrightarrow>
              Y = replicate (length t) (replicate (2 * length oscillators) 0)) \<and>
         (t \<noteq> [] \<longrightarrow>
            runge_kutta_4 derivatives
              (replicate (length oscillators) 0 @ replicate (length oscillators) 0) t
              oscillators =
            Inr (replicate (length t) (replicate (2 * length oscillators) 0))) \<and>
         (0 < length oscillators \<and>
          condition_stiffness eigh k_matrix = Inr k' \<and>
          build_oscillators (length oscillators) masses k' = Inr oscillators \<longrightarrow>
          plot_animation eigh (length oscillators) masses k_matrix
            (replicate (length oscillators) 0) (replicate (length oscillators) 0) =
            Inl InvalidTrajectory)"
proof (intro conjI allI impI)
  let ?n = "length oscillators"
  let ?z0 = "replicate ?n (0::real) @ replicate ?n 0"
  have rows: "\<forall>oscillator \<in> set oscillators. length (k_row oscillator) = ?n"
    using assms by (rule well_formed_rows)
  note run = zero_trajectory[OF rows]
  show "Y = replicate (length t) (replicate (2 * ?n) 0)"
    if "runge_kutta_4 derivatives ?z0 t oscillators = Inr Y" for Y
  proof (cases "t = []")
    case True
    with that show ?thesis
      by (simp add: runge_kutta_4_empty)
  next
    case False
    from run[OF False] that show ?thesis
      by simp
  qed
  show "runge_kutta_4 derivatives ?z0 t oscillators =
      Inr (replicate (length t) (replicate (2 * ?n) 0))" if "t \<noteq> []"
    using that by (rule run)
  assume h: "0 < ?n \<and> condition_stiffness eigh k_matrix = Inr k' \<and>
      build_oscillators ?n masses k' = Inr oscillators"
  let ?t = "linspace 0 20 1000"
  have grid: "?t \<noteq> []"
  proof
    assume "?t = []"
    then have "length ?t = length ([] :: real list)"
      by (rule arg_cong)
    then show False
      by simp
  qed
  have "0 < length ?t"
    by simp
  with h have check: "check_amplitude ?n (replicate (length ?t) (replicate (2 * ?n) 0)) =
      Inl InvalidTrajectory"
    by (intro check_amplitude_zero) blast
  from h have "simulate eigh ?t ?n masses k_matrix (replicate ?n 0) (replicate ?n 0) =
      and_then (runge_kutta_4 derivatives ?z0 ?t oscillators) (check_amplitude ?n)"
    by (simp only: simulate_def and_then_Inr Let_def)
  also have "\<dots> = Inl InvalidTrajectory"
    by (simp only: run[OF grid] and_then_Inr check)
  finally show "plot_animation eigh ?n masses k_matrix (replicate ?n 0) (replicate ?n 0) =
      Inl InvalidTrajectory"
    by (simp only: plot_animation_def)
qed

lemma condition_stiffness_1x1 [simp]:
  "condition_stiffness eigh_1x1 [[c]] = Inr [[if c < 0 then 1 / 1000000 else c]]"
  by (simp add: condition_stiffness_def symmetrize_def np_add2_def np_T_def np_add_def
      divide_by_def make_positive_definite_def eigh_1x1_def np_matmul_def np_diag_def
      replace_negative_def)

theorem zero_state_is_preserved_witness:
  "well_formed [\<lparr>mass = 2, k_row = [3]\<rparr>] \<and>
   runge_kutta_4 derivatives [0, 0] [0, 1, 3] [\<lparr>mass = 2, k_row = [3]\<rparr>] =
     Inr [[0, 0], [0, 0], [0, 0]] \<and>
   plot_animation eigh_1x1 1 [2] [[3]] [0] [0] = Inl InvalidTrajectory"
proof -
  let ?o = "[\<lparr>mass = 2, k_row = [3::real]\<rparr>]"
  have wf: "well_formed ?o"
    by (simp add: well_formed_def)
  note inst = zero_state_is_preserved[OF wf, of "[0, 1, 3]" eigh_1x1 "[[3]]" "[[3]]" "[2]"]
  from inst[THEN conjunct2, THEN conjunct1]
  have run: "runge_kutta_4 derivatives [0, 0] [0, 1, 3] ?o = Inr [[0, 0], [0, 0], [0, 0]]"
    by (simp add: numeral_eq_Suc)
  have pre: "0 < length ?o \<and> condition_stiffness eigh_1x1 [[3]] = Inr [[3]] \<and>
      build_oscillators (length ?o) [2] [[3]] = Inr ?o"
    by (simp add: build_oscillators_def)
  from inst[THEN conjunct2, THEN conjunct2, rule_format, OF pre]
  have "plot_animation eigh_1x1 1 [2] [[3]] [0] [0] = Inl InvalidTrajectory"
    by simp
  with wf run show ?thesis
    by (intro conjI)
qed

subsection \<open>Square matrices\<close>

lemma squareD:
  assumes "square n m"
  shows "length m = n" "i < n \<Longrightarrow> length (m ! i) = n"
  using assms by (auto simp: square_def)

lemma np_T_eq:
  "square n m \<Longrightarrow> np_T m = map (\<lambda>j. map (\<lambda>row. row ! j) m) [0..<n]"
  by (auto simp: np_T_def square_def split: list.splits)

lemma np_T_square:
  assumes "square n m"
  shows "square n (np_T m)" and "i < n \<Longrightarrow> j < n \<Longrightarrow> np_T m ! i ! j = m ! j ! i"
proof -
  show "square n (np_T m)"
    unfolding np_T_eq[OF assms] using assms by (auto simp: square_def)
  show "np_T m ! i ! j = m ! j ! i" if "i < n" "j < n"
    unfolding np_T_eq[OF assms] using assms that by (simp add: square_def)
qed




lemma np_diag_square: "square (length d) (np_diag d)"
  by (auto simp: square_def np_diag_def)

lemma np_diag_nth:
  "i < length d \<Longrightarrow> j < length d \<Longrightarrow> np_diag d ! i ! j = (if i = j then d ! i else 0)"
  by (simp add: np_diag_def)

lemma np_matmul_square:
  assumes a: "square n a" and b: "square n b"
  shows "\<exists>p. np_matmul a b = Inr p \<and> square n p \<and>
           (\<forall>i < n. \<forall>j < n. p ! i ! j = (\<Sum>k < n. a ! i ! k * b ! k ! j))"
proof -
  let ?p = "map (\<lambda>row. map (\<lambda>col. sum_list (map2 (*) row col)) (np_T b)) a"
  note tb = np_T_square[OF b]
  have "np_matmul a b = Inr ?p"
    using a b by (simp add: np_matmul_def square_def list_all_iff)
  moreover have "square n ?p"
    using a tb(1) by (auto simp: square_def)
  moreover have "?p ! i ! j = (\<Sum>k < n. a ! i ! k * b ! k ! j)" if "i < n" "j < n" for i j
  proof -
    have la: "length (a ! i) = n" and lb: "length (np_T b ! j) = n"
      using squareD[OF a] squareD[OF tb(1)] that by auto
    have "?p ! i ! j = sum_list (map2 (*) (a ! i) (np_T b ! j))"
      using that squareD[OF a] squareD[OF tb(1)] by simp
    also have "\<dots> = (\<Sum>k < n. a ! i ! k * np_T b ! j ! k)"
      using la lb by (simp add: dot_as_sum)
    also have "\<dots> = (\<Sum>k < n. a ! i ! k * b ! k ! j)"
      using that by (intro sum.cong) (simp_all add: tb(2))
    finally show ?thesis .
  qed
  ultimately show ?thesis by blast
qed

lemma replace_negative_nonneg: "i < length d \<Longrightarrow> 0 \<le> replace_negative d ! i"
  by (simp add: replace_negative_def)

lemma length_replace_negative [simp]: "length (replace_negative d) = length d"
  by (simp add: replace_negative_def)

lemma make_positive_definite_entries:
  assumes e: "eigh m = Inr (vals, vecs)" and l: "length vals = n" and v: "square n vecs"
  shows "\<exists>k'. make_positive_definite eigh m = Inr k' \<and> square n k' \<and>
           (\<forall>i < n. \<forall>j < n.
              k' ! i ! j = (\<Sum>k < n. vecs ! i ! k * replace_negative vals ! k * vecs ! j ! k))"
proof -
  have d: "square n (np_diag (replace_negative vals))"
    using np_diag_square[of "replace_negative vals"] l by simp
  from np_matmul_square[OF v d] obtain vd where vd: "np_matmul vecs (np_diag (replace_negative vals)) = Inr vd"
    "square n vd" "\<And>i j. i < n \<Longrightarrow> j < n \<Longrightarrow>
       vd ! i ! j = (\<Sum>k < n. vecs ! i ! k * np_diag (replace_negative vals) ! k ! j)"
    by blast
  have vd_nth: "vd ! i ! j = vecs ! i ! j * replace_negative vals ! j" if "i < n" "j < n" for i j
  proof -
    have "vd ! i ! j = (\<Sum>k < n. vecs ! i ! k * (if k = j then replace_negative vals ! k else 0))"
      unfolding vd(3)[OF that] using that l by (intro sum.cong) (simp_all add: np_diag_nth)
    also have "\<dots> = (\<Sum>k < n. if k = j then vecs ! i ! k * replace_negative vals ! k else 0)"
      by (intro sum.cong) simp_all
    also have "\<dots> = vecs ! i ! j * replace_negative vals ! j"
      using that by (simp add: sum.delta)
    finally show ?thesis .
  qed
  note tv = np_T_square[OF v]
  from np_matmul_square[OF vd(2) tv(1)] obtain k' where k': "np_matmul vd (np_T vecs) = Inr k'"
    "square n k'" "\<And>i j. i < n \<Longrightarrow> j < n \<Longrightarrow>
       k' ! i ! j = (\<Sum>k < n. vd ! i ! k * np_T vecs ! k ! j)"
    by blast
  have "k' ! i ! j = (\<Sum>k < n. vecs ! i ! k * replace_negative vals ! k * vecs ! j ! k)"
    if "i < n" "j < n" for i j
    unfolding k'(3)[OF that] using that by (intro sum.cong) (simp_all add: vd_nth tv(2))
  moreover have "make_positive_definite eigh m = Inr k'"
    by (simp add: make_positive_definite_def e vd(1) k'(1) Let_def)
  ultimately show ?thesis
    using k'(2) by blast
qed

subsection \<open>What a returned trajectory looks like\<close>

lemma for_loop_preserves:
  assumes "P s"
    and step: "\<And>i s s'. P s \<Longrightarrow> body i s = Inr s' \<Longrightarrow> P s'"
    and "for_loop js body s = Inr s'"
  shows "P s'"
  using assms(1,3)
proof (induction js arbitrary: s)
  case Nil
  then show ?case by simp
next
  case (Cons j js)
  from Cons.prems(2) obtain s1 where s1: "body j s = Inr s1" "for_loop js body s1 = Inr s'"
    by (auto split: sum.splits)
  from Cons.prems(1) s1(1) have "P s1"
    by (rule step)
  then show ?case
    using s1(2) by (rule Cons.IH)
qed

lemma set_row_shape:
  assumes "set_row w y i v = Inr y'"
  shows "length y' = length y"
    and "(\<forall>r \<in> set y. length r = w) \<Longrightarrow> (\<forall>r \<in> set y'. length r = w)"
  using assms
  by (auto simp: set_row_def split: if_splits dest!: set_update_subset_insert[THEN subsetD])

lemma and_then_Inr_iff: "(and_then m k = Inr r) = (\<exists>v. m = Inr v \<and> k v = Inr r)"
  by (cases m) simp_all

lemma rk4_iteration_writes_row:
  assumes "rk4_iteration f t oscs w i y = Inr y'"
  shows "\<exists>v. set_row w y (i + 1) v = Inr y'"
  using assms unfolding rk4_iteration_def Let_def and_then_Inr_iff
  by blast

lemma runge_kutta_4_shape:
  assumes "runge_kutta_4 f y0 t oscs = Inr Y"
  shows "length Y = length t" and "t \<noteq> []" and "\<forall>r \<in> set Y. length r = length y0"
proof -
  let ?w = "length y0"
  let ?P = "\<lambda>y. length y = length t \<and> (\<forall>r \<in> set y. length r = ?w)"
  from assms obtain Y0 where
    Y0: "set_row ?w (replicate (length t) (replicate ?w 0)) 0 y0 = Inr Y0"
    and loop: "for_loop [0..<length t - 1] (rk4_iteration f t oscs ?w) Y0 = Inr Y"
    unfolding runge_kutta_4_def Let_def and_then_Inr_iff by blast
  from Y0 show "t \<noteq> []"
    by (auto simp: set_row_def)
  have zeros: "\<forall>r \<in> set (replicate (length t) (replicate ?w (0::real))). length r = ?w"
    by simp
  have "?P Y0"
    using set_row_shape(1)[OF Y0] set_row_shape(2)[OF Y0 zeros] by simp
  moreover have "?P y'" if "?P y" "rk4_iteration f t oscs ?w i y = Inr y'" for i y y'
  proof -
    from rk4_iteration_writes_row[OF that(2)]
    obtain v where v: "set_row ?w y (i + 1) v = Inr y'" ..
    from that(1) have rows: "\<forall>r \<in> set y. length r = ?w" ..
    from that(1) set_row_shape(1)[OF v] set_row_shape(2)[OF v rows] show ?thesis
      by simp
  qed
  ultimately have "?P Y"
    using loop by (rule for_loop_preserves[where P = ?P])
  then show "length Y = length t" and "\<forall>r \<in> set Y. length r = length y0"
    by simp_all
qed

subsection \<open>One oscillator, one step\<close>

text \<open>
  The unit oscillator \<open>x'' = -x\<close> from rest at \<open>x = 1\<close>, one step of size one:
  the result \<open>(13/24, -5/6)\<close> is the fourth-order approximation of \<open>(cos 1, -sin 1)\<close>.
\<close>

lemma derivatives_single:
  "derivatives s (Float64 [a, b]) [\<lparr>mass = m, k_row = [c]\<rparr>] = Inr (Float64 [b, - (c * a) / m])"
  unfolding derivatives_def Let_def
  by (simp add: assign_prefix_def) (simp add: equationOfBlock_def np_dot_def)

lemma np_add_pair: "np_add [a, b] [c, d] = Inr [a + c, b + d]"
  by (simp add: np_add_def)

lemma rk4_iteration_example:
  "rk4_iteration derivatives [0, 1] [\<lparr>mass = 1, k_row = [1]\<rparr>] (Suc (Suc 0)) 0
     [[1, 0], [0, 0]] = Inr [[1, 0], [13 / 24, - 5 / 6]]"
  unfolding rk4_iteration_def Let_def
  by (simp add: derivatives_single scale_def divide_by_def np_add_pair set_row_def)

lemma runge_kutta_4_example:
  "runge_kutta_4 derivatives [1, 0] [0, 1] [\<lparr>mass = 1, k_row = [1]\<rparr>] =
     Inr [[1, 0], [13 / 24, - 5 / 6]]"
  unfolding runge_kutta_4_def Let_def
  by (simp add: set_row_def rk4_iteration_example)

subsection \<open>The zero-trajectory check\<close>

text \<open>
  Claim C7. Once the stiffness matrix is conditioned, the oscillators are built and the
  integration has returned the trajectory \<open>sol\<close> (for \<open>n \<ge> 1\<close> oscillators and a
  non-empty state), the simulation raises the error of the zero trajectory if and only
  if every displacement entry of \<open>sol\<close> is zero. It is raised in place of the handoff
  to the drawing code, and the caller at module level prints it and goes on. This
  holds on every time grid \<open>t\<close>, the grid of \<open>plot_animation\<close> among them.
\<close>

theorem invalid_trajectory_iff_all_zero:
  assumes "condition_stiffness eigh k_matrix = Inr k'"
    and "build_oscillators n masses k' = Inr oscillators"
    and "runge_kutta_4 derivatives (initial_displacements @ initial_velocities) t oscillators =
           Inr sol"
    and "0 < n"
    and "initial_displacements @ initial_velocities \<noteq> []"
  shows "(simulate eigh t n masses k_matrix initial_displacements initial_velocities =
            Inl InvalidTrajectory) =
         (\<forall>row \<in> set sol. \<forall>x \<in> set (take n row). x = 0) \<and>
         run_example (Inl InvalidTrajectory) =
           Printed ''Error: All displacement values are zero. Please check the input data.''"
proof
  note shape = runge_kutta_4_shape[OF assms(3)]
  from shape(1,2) obtain row rows where sol: "sol = row # rows"
    by (cases sol) auto
  with shape(3) assms(5) have "row \<noteq> []"
    by auto
  with assms(4) have "take n row \<noteq> []"
    by simp
  then have "concat (map (take n) sol) \<noteq> []"
    by (simp add: sol)
  from check_amplitude_iff[OF this] assms(1-3)
  show "(simulate eigh t n masses k_matrix initial_displacements initial_velocities =
            Inl InvalidTrajectory) =
         (\<forall>row \<in> set sol. \<forall>x \<in> set (take n row). x = 0)"
    by (simp add: simulate_def)
  show "run_example (Inl InvalidTrajectory) =
           Printed ''Error: All displacement values are zero. Please check the input data.''"
    by (simp add: run_example_def InvalidTrajectory_def)
qed

theorem invalid_trajectory_iff_all_zero_witness:
  "simulate eigh_1x1 [0, 1] 1 [1] [[1]] [1] [0] \<noteq> Inl InvalidTrajectory \<and>
   simulate eigh_1x1 [0] 1 [1] [[1]] [0] [0] = Inl InvalidTrajectory \<and>
   run_example (Inl InvalidTrajectory) =
     Printed ''Error: All displacement values are zero. Please check the input data.''"
proof -
  let ?o = "[\<lparr>mass = 1, k_row = [1::real]\<rparr>]"
  have c: "condition_stiffness eigh_1x1 [[1]] = Inr [[1]]"
    by simp
  have b: "build_oscillators 1 [1] [[1]] = Inr ?o"
    by (simp add: build_oscillators_def)
  have r1: "runge_kutta_4 derivatives ([1] @ [0]) [0, 1] ?o = Inr [[1, 0], [13 / 24, - 5 / 6]]"
    by (simp add: runge_kutta_4_example)
  have r2: "runge_kutta_4 derivatives ([0] @ [0]) [0] ?o = Inr [[0, 0]]"
    by (simp add: runge_kutta_4_def set_row_def)
  from invalid_trajectory_iff_all_zero[OF c b r1] invalid_trajectory_iff_all_zero[OF c b r2]
  show ?thesis
    by simp
qed

subsection \<open>The spectrum of the conditioned stiffness matrix\<close>












subsection \<open>What is checked of the inputs\<close>

lemma build_oscillators_well_formed:
  assumes "square n k'" and "n \<le> length masses" and "\<forall>i < n. masses ! i \<noteq> 0"
  shows "\<exists>oscs. build_oscillators n masses k' = Inr oscs \<and> well_formed oscs \<and> length oscs = n"
proof -
  let ?oscs = "map (\<lambda>i. \<lparr>mass = masses ! i, k_row = k' ! i\<rparr>) [0..<n]"
  have "build_oscillators n masses k' = Inr ?oscs"
    using assms(1,2) by (simp add: build_oscillators_def square_def)
  moreover have "well_formed ?oscs"
    using assms by (auto simp: well_formed_def square_def)
  ultimately show ?thesis
    by simp
qed

lemma check_amplitude_cases:
  assumes "concat (map (take n) sol) \<noteq> []"
  shows "check_amplitude n sol = Inl InvalidTrajectory \<and>
           (\<forall>row \<in> set sol. \<forall>x \<in> set (take n row). x = 0) \<or>
         (\<exists>a. check_amplitude n sol = Inr \<lparr>solution = sol, spacing = a\<rparr>) \<and>
           (\<exists>row \<in> set sol. \<exists>x \<in> set (take n row). x \<noteq> 0)"
proof (cases "check_amplitude n sol = Inl InvalidTrajectory")
  case True
  with check_amplitude_iff[OF assms] show ?thesis by simp
next
  case False
  with check_amplitude_iff[OF assms] have "\<exists>row \<in> set sol. \<exists>x \<in> set (take n row). x \<noteq> 0"
    by simp
  moreover from False have "\<exists>a. check_amplitude n sol = Inr \<lparr>solution = sol, spacing = a\<rparr>"
    unfolding check_amplitude_def np_max_abs_nonempty[OF assms] by (simp split: if_splits)
  ultimately show ?thesis by blast
qed

lemma plot_animation_runs:
  assumes cond: "condition_stiffness eigh k_matrix = Inr k'" and k': "square n k'"
    and masses: "n \<le> length masses" "\<forall>i < n. masses ! i \<noteq> 0"
    and len: "length (disp @ vel) = 2 * n"
    and nz: "\<exists>x \<in> set (take n (disp @ vel)). x \<noteq> 0"
  shows "\<exists>sol a. plot_animation eigh n masses k_matrix disp vel =
             Inr \<lparr>solution = sol, spacing = a\<rparr> \<and>
           length sol = 1000 \<and> sol ! 0 = disp @ vel"
proof -
  let ?t = "linspace 0 20 1000"
  have grid: "?t \<noteq> []"
  proof
    assume "?t = []"
    then have "length ?t = length ([] :: real list)"
      by (rule arg_cong)
    then show False
      by simp
  qed
  from build_oscillators_well_formed[OF k' masses]
  obtain oscs where oscs: "build_oscillators n masses k' = Inr oscs" "well_formed oscs"
    "length oscs = n"
    by blast
  have "length_preserving (2 * length oscs) derivatives oscs"
    using oscs(2) by (intro derivatives_length_preserving well_formed_rows)
  then have "length_preserving (length (disp @ vel)) derivatives oscs"
    using len oscs(3) by simp
  from runge_kutta_4_rows[OF this grid]
  obtain sol where sol: "runge_kutta_4 derivatives (disp @ vel) ?t oscs = Inr sol"
    "length sol = length ?t" "sol ! 0 = disp @ vel"
    by blast
  have run: "plot_animation eigh n masses k_matrix disp vel = check_amplitude n sol"
    by (simp only: plot_animation_def simulate_def cond oscs(1) sol(1) and_then_Inr Let_def)
  from sol(2) have "sol \<noteq> []"
    by auto
  then have first: "sol ! 0 \<in> set sol"
    by simp
  with nz sol(3) have some: "\<exists>row \<in> set sol. \<exists>x \<in> set (take n row). x \<noteq> 0"
    by metis
  then obtain row x where "row \<in> set sol" "x \<in> set (take n row)"
    by blast
  then have "x \<in> set (concat (map (take n) sol))"
    by auto
  then have "concat (map (take n) sol) \<noteq> []"
    by (metis empty_iff list.set(1))
  from check_amplitude_cases[OF this] some
  obtain a where "check_amplitude n sol = Inr \<lparr>solution = sol, spacing = a\<rparr>"
    by blast
  with run sol(2,3) show ?thesis
    by simp
qed

lemma length_np_T: "np_T (row # rows) = m \<Longrightarrow> length m = length row"
  by (auto simp: np_T_def)

lemma symmetrize_non_square:
  assumes "2 \<le> length k_matrix" and "\<forall>row \<in> set k_matrix. length row = c"
    and "c \<noteq> length k_matrix" and "c \<noteq> 1"
  shows "symmetrize k_matrix = Inl broadcast_error"
proof -
  from assms(1) obtain row rows where k: "k_matrix = row # rows"
    by (cases k_matrix) auto
  with assms(2) have "length (np_T k_matrix) = c"
    by (simp add: length_np_T)
  with assms(1,3,4) have "np_add2 k_matrix (np_T k_matrix) = Inl broadcast_error"
    by (simp add: np_add2_def)
  then show ?thesis
    by (simp add: symmetrize_def)
qed

text \<open>
  Claim C9, as amended. For every input whose stiffness matrix is not square, with at
  least two rows and a number of columns other than one, \<open>plot_animation\<close> fails at
  its first line, before the eigensolver or the integrator runs and whatever the
  other inputs are: the sum \<open>k_matrix + k_matrix.T\<close> raises numpy's \<open>ValueError\<close> for
  operands that cannot be broadcast together. No handoff is produced, and the caller
  at module level prints the error.
\<close>

theorem non_square_matrix_fails_fast:
  assumes "2 \<le> length k_matrix"
    and "\<forall>row \<in> set k_matrix. length row = c"
    and "c \<noteq> length k_matrix"
    and "c \<noteq> 1"
  shows "symmetrize k_matrix = Inl broadcast_error \<and>
         condition_stiffness eigh k_matrix = Inl broadcast_error \<and>
         plot_animation eigh n masses k_matrix initial_displacements initial_velocities =
           Inl broadcast_error \<and>
         run_example
           (plot_animation eigh n masses k_matrix initial_displacements initial_velocities) =
           Printed ''Error: operands could not be broadcast together''"
proof -
  have s: "symmetrize k_matrix = Inl broadcast_error"
    using assms by (rule symmetrize_non_square)
  then have c: "condition_stiffness eigh k_matrix = Inl broadcast_error"
    by (simp add: condition_stiffness_def)
  then have p: "plot_animation eigh n masses k_matrix initial_displacements initial_velocities =
      Inl broadcast_error"
    by (simp only: plot_animation_def simulate_def and_then_Inl)
  show ?thesis
    unfolding p using s c by (simp add: run_example_def broadcast_error_def)
qed

theorem non_square_matrix_fails_fast_witness:
  "symmetrize [[1, 2, 3], [4, 5, 6]] = Inl broadcast_error \<and>
   condition_stiffness eigh_example [[1, 2, 3], [4, 5, 6]] = Inl broadcast_error \<and>
   plot_animation eigh_example 2 [1, 1] [[1, 2, 3], [4, 5, 6]] [1, 0] [0, 0] =
     Inl broadcast_error \<and>
   run_example (plot_animation eigh_example 2 [1, 1] [[1, 2, 3], [4, 5, 6]] [1, 0] [0, 0]) =
     Printed ''Error: operands could not be broadcast together''"
proof -
  have "2 \<le> length [[1, 2, 3], [4, 5, 6 :: real]]"
    and "\<forall>row \<in> set [[1, 2, 3], [4, 5, 6 :: real]]. length row = 3"
    and "3 \<noteq> length [[1, 2, 3], [4, 5, 6 :: real]]" and "(3::nat) \<noteq> 1"
    by simp_all
  from non_square_matrix_fails_fast[OF this, where eigh = eigh_example]
  show ?thesis .
qed

lemma eigendecomposition_example_2:
  "eigendecomposition 2 [[- 17, - 24], [- 24, - 31]] [- 49, 1] [[3 / 5, - 4 / 5], [4 / 5, 3 / 5]]"
  by (simp add: eigendecomposition_def square_def numeral_2_eq_2 lessThan_Suc All_less_Suc)

lemma symmetrize_column:
  "symmetrize [[- 17], [- 31]] = Inr [[- 17, - 24], [- 24, - 31]]"
  by (simp add: symmetrize_def np_add2_def np_T_def np_add_def divide_by_def)

lemma condition_stiffness_column:
  "\<exists>k'. condition_stiffness eigh_example [[- 17], [- 31]] = Inr k' \<and> square 2 k'"
proof -
  have e: "eigh_example [[- 17, - 24], [- 24, - 31]] =
      Inr ([- 49, 1], [[3 / 5, - 4 / 5], [4 / 5, 3 / 5]])"
    by (simp add: eigh_example_def)
  have "square 2 [[3 / 5, - 4 / 5], [4 / 5, 3 / 5 :: real]]"
    by (simp add: square_def)
  from make_positive_definite_entries[where eigh = eigh_example, OF e _ this]
  obtain k' where "make_positive_definite eigh_example [[- 17, - 24], [- 24, - 31]] = Inr k'"
    "square 2 k'"
    by auto
  then show ?thesis
    by (simp add: condition_stiffness_def symmetrize_column)
qed

text \<open>
  Claim C9 as stated has every listed violation rejected before conditioning and
  integration. Four inputs that violate it are integrated to the end without any
  error: a negative mass; two masses for one oscillator; two displacements and no
  velocity for one oscillator; and a stiffness matrix of shape \<open>(2, 1)\<close>, which
  broadcasts against its transpose to a \<open>2 \<times> 2\<close> matrix.
\<close>

theorem invalid_inputs_are_integrated:
  "\<not> isl (plot_animation eigh_1x1 1 [- 1] [[1]] [1] [0]) \<and>
   \<not> isl (plot_animation eigh_1x1 1 [1, 5] [[1]] [1] [0]) \<and>
   \<not> isl (plot_animation eigh_1x1 1 [1] [[1]] [1, 0] []) \<and>
   \<not> isl (plot_animation eigh_example 2 [1, 1] [[- 17], [- 31]] [1, 0] [0, 0])"
proof -
  have c1: "condition_stiffness eigh_1x1 [[1]] = Inr [[1]]"
    by simp
  have sq1: "square 1 [[1]]"
    by (simp add: square_def)
  from plot_animation_runs[OF c1 sq1, of "[- 1]" "[1]" "[0]"]
  have "\<not> isl (plot_animation eigh_1x1 1 [- 1] [[1]] [1] [0])"
    by auto
  moreover from plot_animation_runs[OF c1 sq1, of "[1, 5]" "[1]" "[0]"]
  have "\<not> isl (plot_animation eigh_1x1 1 [1, 5] [[1]] [1] [0])"
    by auto
  moreover from plot_animation_runs[OF c1 sq1, of "[1]" "[1, 0]" "[]"]
  have "\<not> isl (plot_animation eigh_1x1 1 [1] [[1]] [1, 0] [])"
    by auto
  moreover have "\<not> isl (plot_animation eigh_example 2 [1, 1] [[- 17], [- 31]] [1, 0] [0, 0])"
  proof -
    from condition_stiffness_column obtain k' where
      k': "condition_stiffness eigh_example [[- 17], [- 31]] = Inr k'" "square 2 k'"
      by blast
    have m: "2 \<le> length [1, 1 :: real]" "\<forall>i < 2. [1, 1 :: real] ! i \<noteq> 0"
      by (simp_all add: nth_Cons' )
    from plot_animation_runs[OF k' m, of "[1, 0]" "[0, 0]"] show ?thesis
      by auto
  qed
  ultimately show ?thesis
    by blast
qed

end
